theory Spec2Isabelle
  imports Main "HOL-Library.Word" "HOL-Library.Char_ord" "HOL-Library.List_Lexorder"
    "HOL-Library.Multiset"
begin

section \<open>JavaScript values and the string helpers the sources use\<close>

text \<open>
  Strings are \<open>string\<close> (lists of 8-bit characters): a JavaScript string is represented by
  its UTF-8 bytes, so \<open>TextEncoder.encode\<close> and the streaming \<open>TextDecoder\<close> are the identity
  on the representation, and the model is exact on ASCII text (a byte-order mark at the
  start of a stream, which the decoder drops, is outside of it).

  A value read from a JSON document or from a request body is a \<open>jsval\<close>. \<open>JUndefined\<close> is
  what a missing property reads as. A number is represented by the text that \<open>String()\<close>
  renders for it (\<open>JNumber ''42''\<close>), which is all the sources ever do with a number
  besides testing its truthiness.
\<close>

datatype jsval =
    JUndefined
  | JNull
  | JBool bool
  | JNumber string
  | JString string
  | JArray "jsval list"
  | JObject "(string \<times> jsval) list"

datatype js_error = TypeError | SyntaxError | CryptoUnavailable

text \<open>\<open>Array.prototype.join\<close> on strings.\<close>

fun join :: "string \<Rightarrow> string list \<Rightarrow> string" where
  "join sep [] = []"
| "join sep [x] = x"
| "join sep (x # y # ys) = x @ sep @ join sep (y # ys)"

text \<open>\<open>ToBoolean\<close>: what \<open>!v\<close>, \<open>v || d\<close> and \<open>if (v)\<close> test.\<close>

fun truthy :: "jsval \<Rightarrow> bool" where
  "truthy JUndefined = False"
| "truthy JNull = False"
| "truthy (JBool b) = b"
| "truthy (JNumber r) = (r \<noteq> ''0'' \<and> r \<noteq> ''NaN'')"
| "truthy (JString s) = (s \<noteq> [])"
| "truthy (JArray xs) = True"
| "truthy (JObject kvs) = True"

text \<open>
  \<open>String(v)\<close>, and with the same outcome the conversion that \<open>s + v\<close> and a template
  literal apply to \<open>v\<close>. The conversion of an object calls its \<open>toString\<close>: a JSON object
  with an own \<open>toString\<close> property has a value there that cannot be called, and since
  \<open>Object.prototype.valueOf\<close> answers the object itself the conversion throws a TypeError.
  The conversion of an array converts its elements and throws when one of them does.
  \<open>js_text\<close> is the text a conversion that does not throw produces.
\<close>

fun js_text :: "jsval \<Rightarrow> string" where
  "js_text JUndefined = ''undefined''"
| "js_text JNull = ''null''"
| "js_text (JBool b) = (if b then ''true'' else ''false'')"
| "js_text (JNumber r) = r"
| "js_text (JString s) = s"
| "js_text (JArray xs) =
     join '','' (map (\<lambda>x. if x = JUndefined \<or> x = JNull then [] else js_text x) xs)"
| "js_text (JObject kvs) = ''[object Object]''"

fun ToString_throws :: "jsval \<Rightarrow> bool" where
  "ToString_throws (JObject kvs) = (''toString'' \<in> set (map fst kvs))"
| "ToString_throws (JArray xs) = list_ex ToString_throws xs"
| "ToString_throws v = False"

definition js_String :: "jsval \<Rightarrow> js_error + string" where
  "js_String v = (if ToString_throws v then Inl TypeError else Inr (js_text v))"

text \<open>
  Property read \<open>v.k\<close> for the property names the sources read (\<open>id\<close>, \<open>delta\<close>, \<open>error\<close>),
  none of which a built-in prototype defines: on \<open>null\<close> and \<open>undefined\<close> it throws a
  TypeError, on an object it is the own property (the last one of that name in a JSON
  document), on anything else it is \<open>undefined\<close>.
\<close>

fun js_get :: "jsval \<Rightarrow> string \<Rightarrow> js_error + jsval" where
  "js_get JUndefined k = Inl TypeError"
| "js_get JNull k = Inl TypeError"
| "js_get (JObject kvs) k =
     Inr (case map_of (rev kvs) k of None \<Rightarrow> JUndefined | Some v \<Rightarrow> v)"
| "js_get v k = Inr JUndefined"

definition startsWith :: "string \<Rightarrow> string \<Rightarrow> bool" where
  "startsWith s p = (take (length p) s = p)"

text \<open>\<open>String.prototype.split\<close> with a one-character separator.\<close>

fun split_on :: "char \<Rightarrow> string \<Rightarrow> string list" where
  "split_on sep [] = [[]]"
| "split_on sep (c # cs) =
     (if c = sep then [] # split_on sep cs
      else (case split_on sep cs of [] \<Rightarrow> [[c]] | w # ws \<Rightarrow> (c # w) # ws))"

section \<open>Launch-data verification (lib/verifyTelegram.js)\<close>

subsection \<open>URLSearchParams\<close>

text \<open>
  The platform's parser of \<open>application/x-www-form-urlencoded\<close> text: a leading \<open>?\<close> is
  dropped, the text is split at \<open>&\<close>, empty pieces are skipped, each piece is split at its
  first \<open>=\<close>, \<open>+\<close> becomes a space and \<open>%XX\<close> is decoded.
\<close>

definition hex_digit_val :: "char \<Rightarrow> nat option" where
  "hex_digit_val c =
     (let n = of_char c :: nat in
      if 48 \<le> n \<and> n \<le> 57 then Some (n - 48)
      else if 65 \<le> n \<and> n \<le> 70 then Some (n - 55)
      else if 97 \<le> n \<and> n \<le> 102 then Some (n - 87)
      else None)"

fun percent_decode :: "string \<Rightarrow> string" where
  "percent_decode (c # h # l # cs) =
     (if c = CHR ''%'' then
        (case (hex_digit_val h, hex_digit_val l) of
           (Some a, Some b) \<Rightarrow> char_of (16 * a + b) # percent_decode cs
         | _ \<Rightarrow> c # percent_decode (h # l # cs))
      else c # percent_decode (h # l # cs))"
| "percent_decode cs = cs"

definition form_decode :: "string \<Rightarrow> string" where
  "form_decode s = percent_decode (map (\<lambda>c. if c = CHR ''+'' then CHR '' '' else c) s)"

definition parse_pair :: "string \<Rightarrow> string \<times> string" where
  "parse_pair seg =
     (let name = takeWhile (\<lambda>c. c \<noteq> CHR ''='') seg;
          val = drop (length name + 1) seg
      in (form_decode name, form_decode val))"

definition URLSearchParams :: "string \<Rightarrow> (string \<times> string) list" where
  "URLSearchParams init =
     (let s = (case init of [] \<Rightarrow> [] | c # cs \<Rightarrow> if c = CHR ''?'' then cs else init)
      in map parse_pair (filter (\<lambda>seg. seg \<noteq> []) (split_on CHR ''&'' s)))"

text \<open>\<open>params.get(name)\<close>: the first value of that name, \<open>None\<close> for \<open>null\<close>.\<close>

definition params_get :: "(string \<times> string) list \<Rightarrow> string \<Rightarrow> string option" where
  "params_get params name = map_of params name"

subsection \<open>The field object\<close>

text \<open>
  \<open>const data = {}; for (const [k, v] of params.entries()) data[k] = v\<close>. The object is an
  association list of its own properties. An assignment to an existing key replaces its
  value. An assignment to the key \<open>__proto__\<close> reaches the accessor that \<open>Object.prototype\<close>
  defines, whose setter ignores a string: it creates no own property.
\<close>

fun obj_update :: "string \<Rightarrow> string \<Rightarrow> (string \<times> string) list \<Rightarrow> (string \<times> string) list" where
  "obj_update k v [] = [(k, v)]"
| "obj_update k v (p # ps) = (if fst p = k then (k, v) # ps else p # obj_update k v ps)"

definition obj_set :: "(string \<times> string) list \<Rightarrow> string \<Rightarrow> string \<Rightarrow> (string \<times> string) list" where
  "obj_set data k v = (if k = ''__proto__'' then data else obj_update k v data)"

fun collect_fields :: "(string \<times> string) list \<Rightarrow> (string \<times> string) list \<Rightarrow> (string \<times> string) list" where
  "collect_fields data [] = data"
| "collect_fields data ((k, v) # entries) = collect_fields (obj_set data k v) entries"

text \<open>\<open>Object.keys(data).sort()\<close>: the own keys in the order of their code units.\<close>

definition sorted_keys :: "(string \<times> string) list \<Rightarrow> string list" where
  "sorted_keys data = sort (map fst data)"

text \<open>The loop that fills \<open>checkArr\<close>, and the check-string \<open>checkArr.join("\n")\<close>.\<close>

fun checkArr_loop :: "(string \<times> string) list \<Rightarrow> string list \<Rightarrow> string list \<Rightarrow> string list" where
  "checkArr_loop data [] checkArr = checkArr"
| "checkArr_loop data (key # keys) checkArr =
     (if key = ''hash'' then checkArr_loop data keys checkArr
      else checkArr_loop data keys
             (checkArr @ [key @ ''='' @ (case map_of data key of None \<Rightarrow> ''undefined'' | Some v \<Rightarrow> v)]))"

definition checkString_of :: "(string \<times> string) list \<Rightarrow> string" where
  "checkString_of data = join ''\<newline>'' (checkArr_loop data (sorted_keys data) [])"

subsection \<open>toHex and the keyed hash\<close>

type_synonym byte = "8 word"

definition encode :: "string \<Rightarrow> byte list" where
  "encode s = map of_char s"

definition hex_digit :: "nat \<Rightarrow> char" where
  "hex_digit n = ''0123456789abcdef'' ! (n mod 16)"

definition byte_toString16 :: "byte \<Rightarrow> string" where
  "byte_toString16 b =
     (if unat b < 16 then [hex_digit (unat b)]
      else [hex_digit (unat b div 16), hex_digit (unat b mod 16)])"

definition padStart2 :: "string \<Rightarrow> string" where
  "padStart2 s = replicate (2 - length s) CHR ''0'' @ s"

fun toHex_loop :: "byte list \<Rightarrow> string \<Rightarrow> string" where
  "toHex_loop [] hex = hex"
| "toHex_loop (b # bytes) hex = toHex_loop bytes (hex @ padStart2 (byte_toString16 b))"

definition toHex :: "byte list \<Rightarrow> string" where
  "toHex buffer = toHex_loop buffer []"

text \<open>
  HMAC-SHA-256 is the platform's (\<open>crypto.subtle\<close>): it is a parameter, \<open>None\<close> when the
  runtime has no Web Crypto, in which case \<open>hmacSHA256\<close> throws. An \<open>async\<close> function
  returns a promise, resolved with the value it returns or rejected with what it throws.
\<close>

type_synonym hmac_fn = "byte list \<Rightarrow> byte list \<Rightarrow> byte list"

datatype 'a promise = Resolved 'a | Rejected js_error

definition hmacSHA256 :: "hmac_fn option \<Rightarrow> byte list \<Rightarrow> byte list \<Rightarrow> js_error + byte list" where
  "hmacSHA256 subtle keyBytes dataBytes =
     (case subtle of
        None \<Rightarrow> Inl CryptoUnavailable
      | Some sign \<Rightarrow> Inr (sign keyBytes dataBytes))"

subsection \<open>verifyTelegramInitData and extractUserId\<close>

definition verifyTelegramInitData :: "hmac_fn option \<Rightarrow> string \<Rightarrow> string \<Rightarrow> bool promise" where
  "verifyTelegramInitData subtle initDataRaw botToken =
     (if initDataRaw = [] \<or> botToken = [] then Resolved False
      else
        let data = collect_fields [] (URLSearchParams initDataRaw) in
        (case map_of data ''hash'' of
           None \<Rightarrow> Resolved False
         | Some receivedHash \<Rightarrow>
             if receivedHash = [] then Resolved False
             else
               let checkString = checkString_of data in
               (case hmacSHA256 subtle (encode ''WebAppData'') (encode botToken) of
                  Inl e \<Rightarrow> Rejected e
                | Inr step1 \<Rightarrow>
                    (case hmacSHA256 subtle step1 (encode checkString) of
                       Inl e \<Rightarrow> Rejected e
                     | Inr step2 \<Rightarrow> Resolved (toHex step2 = receivedHash)))))"

text \<open>
  \<open>extractUserId\<close>: \<open>JSON.parse\<close> is the platform's and a parameter (\<open>None\<close> when it throws
  a SyntaxError); the result \<open>None\<close> is \<open>null\<close>. Whatever is thrown inside is caught.
\<close>

definition extractUserId :: "(string \<Rightarrow> jsval option) \<Rightarrow> string \<Rightarrow> string option" where
  "extractUserId JSON_parse initDataRaw =
     (case params_get (URLSearchParams initDataRaw) ''user'' of
        None \<Rightarrow> None
      | Some userJson \<Rightarrow>
          if userJson = [] then None
          else
            (case JSON_parse userJson of
               None \<Rightarrow> None
             | Some user \<Rightarrow>
                 (case js_get user ''id'' of
                    Inl e \<Rightarrow> None
                  | Inr v \<Rightarrow>
                      (case js_String v of
                         Inl e \<Rightarrow> None
                       | Inr text \<Rightarrow> Some text))))"

section \<open>A reference JSON.parse\<close>

text \<open>
  The functions of the program take \<open>JSON.parse\<close> as a parameter. \<open>JSON_parse_ref\<close> is an
  instance for running them on concrete text: the JSON grammar with integer numerals of
  at most 15 digits (which \<open>String()\<close> renders as they are written) and with the
  two-character escapes in strings. Longer numerals, numerals with a fraction or an
  exponent and \<open>\u\<close> escapes are not covered (it answers \<open>None\<close> on them); no run below
  contains one.
\<close>

datatype token =
    TLBrace | TRBrace | TLBrack | TRBrack | TColon | TComma
  | TStr string | TNum string | TWord string

datatype lexmode = Idle | InStr string | InEsc string | InNum string | InWord string

definition is_digit :: "char \<Rightarrow> bool" where
  "is_digit c = (48 \<le> (of_char c :: nat) \<and> (of_char c :: nat) \<le> 57)"

definition is_lower :: "char \<Rightarrow> bool" where
  "is_lower c = (97 \<le> (of_char c :: nat) \<and> (of_char c :: nat) \<le> 122)"

definition is_json_ws :: "char \<Rightarrow> bool" where
  "is_json_ws c = (c = CHR '' '' \<or> c = CHR 0x09 \<or> c = CHR 0x0A \<or> c = CHR 0x0D)"

text \<open>What one character does outside a string, numeral or word.\<close>

definition idle_char :: "char \<Rightarrow> (token list \<times> lexmode) option" where
  "idle_char c =
     (if is_json_ws c then Some ([], Idle)
      else if c = CHR ''{'' then Some ([TLBrace], Idle)
      else if c = CHR ''}'' then Some ([TRBrace], Idle)
      else if c = CHR ''['' then Some ([TLBrack], Idle)
      else if c = CHR '']'' then Some ([TRBrack], Idle)
      else if c = CHR '':'' then Some ([TColon], Idle)
      else if c = CHR '','' then Some ([TComma], Idle)
      else if c = CHR 0x22 then Some ([], InStr [])
      else if c = CHR ''-'' \<or> is_digit c then Some ([], InNum [c])
      else if is_lower c then Some ([], InWord [c])
      else None)"

definition escape_char :: "char \<Rightarrow> char option" where
  "escape_char c =
     (if c = CHR 0x22 \<or> c = CHR 0x5C \<or> c = CHR ''/'' then Some c
      else if c = CHR ''b'' then Some (CHR 0x08)
      else if c = CHR ''f'' then Some (CHR 0x0C)
      else if c = CHR ''n'' then Some (CHR 0x0A)
      else if c = CHR ''r'' then Some (CHR 0x0D)
      else if c = CHR ''t'' then Some (CHR 0x09)
      else None)"

text \<open>
  An integer numeral: an optional minus, then \<open>0\<close> or at most 15 digits not starting
  with \<open>0\<close>.
\<close>

definition valid_int :: "string \<Rightarrow> bool" where
  "valid_int s =
     (let ds = (case s of [] \<Rightarrow> [] | c # cs \<Rightarrow> if c = CHR ''-'' then cs else s)
      in ds \<noteq> [] \<and> length ds \<le> 15 \<and> list_all is_digit ds \<and>
         (ds = ''0'' \<or> hd ds \<noteq> CHR ''0''))"

fun cons_tokens :: "token list \<Rightarrow> token list option \<Rightarrow> token list option" where
  "cons_tokens ts None = None"
| "cons_tokens ts (Some us) = Some (ts @ us)"

fun lex :: "lexmode \<Rightarrow> string \<Rightarrow> token list option" where
  "lex Idle [] = Some []"
| "lex (InStr acc) [] = None"
| "lex (InEsc acc) [] = None"
| "lex (InNum acc) [] = (if valid_int acc then Some [TNum acc] else None)"
| "lex (InWord acc) [] = Some [TWord acc]"
| "lex Idle (c # cs) =
     (case idle_char c of None \<Rightarrow> None | Some (ts, m) \<Rightarrow> cons_tokens ts (lex m cs))"
| "lex (InStr acc) (c # cs) =
     (if c = CHR 0x22 then cons_tokens [TStr acc] (lex Idle cs)
      else if c = CHR 0x5C then lex (InEsc acc) cs
      else if (of_char c :: nat) < 32 then None
      else lex (InStr (acc @ [c])) cs)"
| "lex (InEsc acc) (c # cs) =
     (case escape_char c of None \<Rightarrow> None | Some e \<Rightarrow> lex (InStr (acc @ [e])) cs)"
| "lex (InNum acc) (c # cs) =
     (if is_digit c then lex (InNum (acc @ [c])) cs
      else if \<not> valid_int acc then None
      else (case idle_char c of None \<Rightarrow> None
            | Some (ts, m) \<Rightarrow> cons_tokens (TNum acc # ts) (lex m cs)))"
| "lex (InWord acc) (c # cs) =
     (if is_lower c then lex (InWord (acc @ [c])) cs
      else (case idle_char c of None \<Rightarrow> None
            | Some (ts, m) \<Rightarrow> cons_tokens (TWord acc # ts) (lex m cs)))"

text \<open>The grammar, as a machine with a stack of the containers that are still open.\<close>

datatype frame =
    InArray "jsval list"
  | InObject "(string \<times> jsval) list"
  | InMember "(string \<times> jsval) list" string

datatype expect =
    Value | ValueOrClose | KeyOrClose | Key | Colon | CommaOrClose | Finished jsval

fun push_value :: "jsval \<Rightarrow> frame list \<Rightarrow> (frame list \<times> expect) option" where
  "push_value v [] = Some ([], Finished v)"
| "push_value v (InArray xs # st) = Some (InArray (xs @ [v]) # st, CommaOrClose)"
| "push_value v (InMember kvs k # st) = Some (InObject (kvs @ [(k, v)]) # st, CommaOrClose)"
| "push_value v (InObject kvs # st) = None"

fun scalar_of :: "token \<Rightarrow> jsval option" where
  "scalar_of (TStr s) = Some (JString s)"
| "scalar_of (TNum n) = Some (JNumber (if n = ''-0'' then ''0'' else n))"
| "scalar_of (TWord w) =
     (if w = ''true'' then Some (JBool True)
      else if w = ''false'' then Some (JBool False)
      else if w = ''null'' then Some JNull
      else None)"
| "scalar_of t = None"

fun value_token :: "token \<Rightarrow> frame list \<Rightarrow> (frame list \<times> expect) option" where
  "value_token TLBrack st = Some (InArray [] # st, ValueOrClose)"
| "value_token TLBrace st = Some (InObject [] # st, KeyOrClose)"
| "value_token t st = (case scalar_of t of None \<Rightarrow> None | Some v \<Rightarrow> push_value v st)"

fun key_token :: "token \<Rightarrow> frame list \<Rightarrow> (frame list \<times> expect) option" where
  "key_token (TStr k) (InObject kvs # st) = Some (InMember kvs k # st, Colon)"
| "key_token t st = None"

fun close_token :: "token \<Rightarrow> frame list \<Rightarrow> (frame list \<times> expect) option" where
  "close_token TRBrack (InArray xs # st) = push_value (JArray xs) st"
| "close_token TRBrace (InObject kvs # st) = push_value (JObject kvs) st"
| "close_token t st = None"

fun parse_step :: "expect \<Rightarrow> token \<Rightarrow> frame list \<Rightarrow> (frame list \<times> expect) option" where
  "parse_step Value t st = value_token t st"
| "parse_step ValueOrClose t st = (if t = TRBrack then close_token t st else value_token t st)"
| "parse_step KeyOrClose t st = (if t = TRBrace then close_token t st else key_token t st)"
| "parse_step Key t st = key_token t st"
| "parse_step Colon t st = (if t = TColon then Some (st, Value) else None)"
| "parse_step CommaOrClose t st =
     (if t = TComma then
        (case st of
           InArray xs # st' \<Rightarrow> Some (st, Value)
         | InObject kvs # st' \<Rightarrow> Some (st, Key)
         | _ \<Rightarrow> None)
      else close_token t st)"
| "parse_step (Finished v) t st = None"

fun parse_tokens :: "frame list \<Rightarrow> expect \<Rightarrow> token list \<Rightarrow> jsval option" where
  "parse_tokens st (Finished v) [] = Some v"
| "parse_tokens st e [] = None"
| "parse_tokens st e (t # ts) =
     (case parse_step e t st of None \<Rightarrow> None | Some (st', e') \<Rightarrow> parse_tokens st' e' ts)"

definition JSON_parse_ref :: "string \<Rightarrow> jsval option" where
  "JSON_parse_ref text =
     (case lex Idle text of None \<Rightarrow> None | Some ts \<Rightarrow> parse_tokens [] Value ts)"

section \<open>The tip endpoint (pages/api/tip.js)\<close>

text \<open>
  The request: its method (\<open>req.method\<close>) and the three fields the handler reads from \<open>req.body || {}\<close>.
  A field the body lacks is \<open>JUndefined\<close>; \<open>initData\<close> is the launch-data string of the
  client, \<open>None\<close> when the body has none.
\<close>

record tip_request =
  req_method :: string
  level :: jsval
  errors :: jsval
  initData :: "string option"

text \<open>\<open>res.status(n).json(body)\<close>.\<close>

datatype response = Response nat jsval

definition toLowerCase :: "string \<Rightarrow> string" where
  "toLowerCase s =
     map (\<lambda>c. case map_of (zip ''ABCDEFGHIJKLMNOPQRSTUVWXYZ'' ''abcdefghijklmnopqrstuvwxyz'') c of
                None \<Rightarrow> c
              | Some l \<Rightarrow> l) s"

text \<open>A promise is an object, and every object is truthy.\<close>

definition truthy_promise :: "'a promise \<Rightarrow> bool" where
  "truthy_promise p = True"

definition error_body :: "string \<Rightarrow> jsval" where
  "error_body msg = JObject [(''ok'', JBool False), (''error'', JString msg)]"

text \<open>\<open>xs.map(s => String(s).slice(0, 200))\<close>; it throws when a conversion does.\<close>

fun map_String_slice :: "jsval list \<Rightarrow> js_error + string list" where
  "map_String_slice [] = Inr []"
| "map_String_slice (s # ss) =
     (case js_String s of
        Inl e \<Rightarrow> Inl e
      | Inr text \<Rightarrow>
          (case map_String_slice ss of
             Inl e \<Rightarrow> Inl e
           | Inr texts \<Rightarrow> Inr (take 200 text # texts)))"

text \<open>
  The handler returns the calls of \<open>generateTip\<close> it made (level and errors of each) and the
  response it sent. \<open>generateTip\<close> is lib/llm's and a parameter (\<open>Inl\<close> when it throws). The
  handler calls \<open>verifyTelegramInitData\<close> without \<open>await\<close>: \<open>ok\<close> is the promise itself.
  Whatever is thrown inside the \<open>try\<close> (by a conversion to text, by \<open>generateTip\<close>) is
  answered with 500.
\<close>

definition handler ::
  "hmac_fn option \<Rightarrow> (string \<Rightarrow> jsval option) \<Rightarrow> (string \<Rightarrow> string list \<Rightarrow> js_error + string)
     \<Rightarrow> string option \<Rightarrow> tip_request \<Rightarrow> (string \<times> string list) list \<times> response" where
  "handler subtle JSON_parse generateTip TELEGRAM_BOT_TOKEN req =
     (if req_method req \<noteq> ''POST'' then ([], Response 405 (error_body ''Method Not Allowed''))
      else
        (case initData req of
           None \<Rightarrow> ([], Response 400 (error_body ''initData required''))
         | Some init \<Rightarrow>
             if init = [] then ([], Response 400 (error_body ''initData required''))
             else
               let ok = verifyTelegramInitData subtle init
                          (case TELEGRAM_BOT_TOKEN of None \<Rightarrow> [] | Some t \<Rightarrow> t)
               in
               if \<not> truthy_promise ok then ([], Response 401 (error_body ''invalid initData''))
               else
                 let userId = (case extractUserId JSON_parse init of
                                 None \<Rightarrow> ''unknown''
                               | Some u \<Rightarrow> if u = [] then ''unknown'' else u)
                 in
                 (case js_String (if truthy (level req) then level req else JString ''beginner'') of
                    Inl e \<Rightarrow> ([], Response 500 (error_body ''server_error''))
                  | Inr levelText \<Rightarrow>
                      let normLevel = toLowerCase levelText;
                          finalLevel = (if normLevel \<in> {''beginner'', ''intermediate'', ''advanced''}
                                        then normLevel else ''beginner'')
                      in
                      (case (case errors req of
                               JArray xs \<Rightarrow> map_String_slice (take 20 xs)
                             | _ \<Rightarrow> Inr []) of
                         Inl e \<Rightarrow> ([], Response 500 (error_body ''server_error''))
                       | Inr errs \<Rightarrow>
                           (case generateTip finalLevel errs of
                              Inl e \<Rightarrow>
                                ([(finalLevel, errs)], Response 500 (error_body ''server_error''))
                            | Inr advice \<Rightarrow>
                                ([(finalLevel, errs)],
                                 Response 200
                                   (JObject [(''ok'', JBool True), (''advice'', JString advice),
                                             (''userId'', JString userId)])))))))"

section \<open>The chat page's stream consumer (frontend/pages/index.tsx)\<close>

datatype Role = System | User | Assistant

record ChatMsg =
  role :: Role
  content :: string

subsection \<open>parseSSELines\<close>

text \<open>
  \<open>s.indexOf(pat, start)\<close> and \<open>s.lastIndexOf(pat)\<close> for a non-empty pattern, \<open>None\<close> for
  \<open>-1\<close>; \<open>s.slice(a, b)\<close> and \<open>s.slice(a)\<close> for indices that are not negative.
\<close>

definition indexOf :: "string \<Rightarrow> string \<Rightarrow> nat \<Rightarrow> nat option" where
  "indexOf s pat start =
     List.find (\<lambda>i. take (length pat) (drop i s) = pat) [start ..< length s]"

definition lastIndexOf :: "string \<Rightarrow> string \<Rightarrow> nat option" where
  "lastIndexOf s pat =
     List.find (\<lambda>i. take (length pat) (drop i s) = pat) (rev [0 ..< length s])"

definition slice :: "string \<Rightarrow> nat \<Rightarrow> nat \<Rightarrow> string" where
  "slice s a b = take (b - a) (drop a s)"

lemma indexOf_bounds:
  assumes "indexOf s ''\<newline>\<newline>'' start = Some idx"
  shows "start \<le> idx \<and> idx + 2 \<le> length s"
proof -
  from assms obtain i where i: "i < length [start ..< length s]"
    and m: "take (length ''\<newline>\<newline>'') (drop ([start ..< length s] ! i) s) = ''\<newline>\<newline>''"
    and idx: "idx = [start ..< length s] ! i"
    unfolding indexOf_def find_Some_iff by blast
  from i idx have le: "start \<le> idx" and lt: "idx < length s" by simp_all
  from m idx have "length (take (length ''\<newline>\<newline>'') (drop idx s)) = length ''\<newline>\<newline>''"
    by simp
  then have "min 2 (length s - idx) = 2" by simp
  then have "idx + 2 \<le> length s" by arith
  with le show ?thesis by simp
qed

function parseSSELines_loop :: "string \<Rightarrow> nat \<Rightarrow> string list \<Rightarrow> string list" where
  "parseSSELines_loop chunk start lines =
     (case indexOf chunk ''\<newline>\<newline>'' start of
        None \<Rightarrow> lines
      | Some idx \<Rightarrow> parseSSELines_loop chunk (idx + 2) (lines @ [slice chunk start idx]))"
  by pat_completeness auto
termination
  by (relation "measure (\<lambda>(chunk, start, lines). length chunk - start)")
     (auto dest: indexOf_bounds)

definition parseSSELines :: "string \<Rightarrow> string list" where
  "parseSSELines chunk = parseSSELines_loop chunk 0 []"

subsection \<open>ssePost\<close>

text \<open>
  What the body of the loop over the frames does with a payload, the text behind the
  marker: it ends the generator, yields a value, or yields nothing.
\<close>

datatype frame_action = Ignore | Done | Yield jsval

definition apply_payload :: "(string \<Rightarrow> jsval option) \<Rightarrow> string \<Rightarrow> frame_action" where
  "apply_payload JSON_parse payload =
     (if payload = ''[DONE]'' then Done
      else
        (case JSON_parse payload of
           None \<Rightarrow> Ignore
         | Some obj \<Rightarrow>
             (case js_get obj ''delta'' of
                Inl e \<Rightarrow> Ignore
              | Inr d \<Rightarrow> if truthy d then Yield d else Ignore)))"

text \<open>
  \<open>for (const line of lines)\<close>: the values yielded, and whether the generator returned.
\<close>

fun process_lines :: "(string \<Rightarrow> jsval option) \<Rightarrow> string list \<Rightarrow> jsval list \<times> bool" where
  "process_lines JSON_parse [] = ([], False)"
| "process_lines JSON_parse (line # lines) =
     (if startsWith line ''data: '' then
        (case apply_payload JSON_parse (drop 6 line) of
           Done \<Rightarrow> ([], True)
         | Yield d \<Rightarrow> (case process_lines JSON_parse lines of (ds, fin) \<Rightarrow> (d # ds, fin))
         | Ignore \<Rightarrow> process_lines JSON_parse lines)
      else process_lines JSON_parse lines)"

text \<open>One read: the chunk joins the buffer, the complete frames leave it.\<close>

definition read_step :: "string \<Rightarrow> string \<Rightarrow> string list \<times> string" where
  "read_step buffer val =
     (let buffer1 = buffer @ val;
          lines = parseSSELines buffer1
      in (lines,
          (case lastIndexOf buffer1 ''\<newline>\<newline>'' of
             None \<Rightarrow> buffer1
           | Some lastDoubleNL \<Rightarrow> drop (lastDoubleNL + 2) buffer1)))"

text \<open>
  The generator, run on the chunks the reader delivers before it reports \<open>done\<close>: the
  values it yields, in order.
\<close>

fun ssePost_loop :: "(string \<Rightarrow> jsval option) \<Rightarrow> string \<Rightarrow> string list \<Rightarrow> jsval list" where
  "ssePost_loop JSON_parse buffer [] = []"
| "ssePost_loop JSON_parse buffer (val # reads) =
     (case read_step buffer val of
        (lines, buffer') \<Rightarrow>
          (case process_lines JSON_parse lines of
             (ds, fin) \<Rightarrow> if fin then ds else ds @ ssePost_loop JSON_parse buffer' reads))"

definition ssePost :: "(string \<Rightarrow> jsval option) \<Rightarrow> string list \<Rightarrow> jsval list" where
  "ssePost JSON_parse reads = ssePost_loop JSON_parse [] reads"

text \<open>The frames the decoder hands to the loop over all reads.\<close>

fun decoded_frames :: "string \<Rightarrow> string list \<Rightarrow> string list" where
  "decoded_frames buffer [] = []"
| "decoded_frames buffer (val # reads) =
     (case read_step buffer val of (lines, buffer') \<Rightarrow> lines @ decoded_frames buffer' reads)"

subsection \<open>handleSend\<close>

text \<open>\<open>String.prototype.trim\<close> (the ASCII white space and line terminators).\<close>

definition is_space :: "char \<Rightarrow> bool" where
  "is_space c = (c = CHR '' '' \<or> (9 \<le> (of_char c :: nat) \<and> (of_char c :: nat) \<le> 13))"

definition trim :: "string \<Rightarrow> string" where
  "trim s = rev (dropWhile is_space (rev (dropWhile is_space s)))"

text \<open>
  The state update made for each yielded delta: a function of the previous messages,
  which throws when the conversion of the delta in \<open>(last.content || '') + delta\<close> does.
  The updates of a turn are applied in order; one that throws is an error of the page
  (it is thrown while the page renders, outside the \<open>try\<close> of \<open>handleSend\<close>), \<open>Inl\<close>.
\<close>

definition append_delta :: "jsval \<Rightarrow> ChatMsg list \<Rightarrow> js_error + ChatMsg list" where
  "append_delta delta prev =
     (if length prev = 0 then Inr prev
      else
        let lastIndex = length prev - 1;
            last_msg = prev ! lastIndex
        in if role last_msg \<noteq> Assistant then Inr prev
           else
             (case js_String delta of
                Inl e \<Rightarrow> Inl e
              | Inr text \<Rightarrow> Inr (prev[lastIndex := last_msg\<lparr>content := content last_msg @ text\<rparr>])))"

fun apply_deltas :: "jsval list \<Rightarrow> ChatMsg list \<Rightarrow> js_error + ChatMsg list" where
  "apply_deltas [] prev = Inr prev"
| "apply_deltas (delta # deltas) prev =
     (case append_delta delta prev of
        Inl e \<Rightarrow> Inl e
      | Inr updated \<Rightarrow> apply_deltas deltas updated)"


subsection \<open>The other copy of the page (unnamed/part_002)\<close>

text \<open>
  Its \<open>parseSSELines\<close> and \<open>ssePost\<close> are the same text. Its \<open>handleSend\<close> addresses the
  assistant message by \<open>assistantIndex = history.length\<close>, where \<open>history\<close> is
  \<open>[...messages, topicContext, userMsg].slice(-20)\<close>. An array slot is \<open>None\<close> when it is a
  hole; a write past the end extends the array.
\<close>

definition array_get :: "'a option list \<Rightarrow> nat \<Rightarrow> 'a option" where
  "array_get xs i = (if i < length xs then xs ! i else None)"

definition array_set :: "'a option list \<Rightarrow> nat \<Rightarrow> 'a \<Rightarrow> 'a option list" where
  "array_set xs i v =
     (if i < length xs then xs[i := Some v]
      else xs @ replicate (i - length xs) None @ [Some v])"

definition append_delta_at ::
  "nat \<Rightarrow> jsval \<Rightarrow> ChatMsg option list \<Rightarrow> js_error + ChatMsg option list" where
  "append_delta_at assistantIndex delta prev =
     (let last_msg = (case array_get prev assistantIndex of
                        None \<Rightarrow> \<lparr>role = Assistant, content = []\<rparr>
                      | Some m \<Rightarrow> m)
      in (case js_String delta of
            Inl e \<Rightarrow> Inl e
          | Inr text \<Rightarrow>
              Inr (array_set prev assistantIndex (last_msg\<lparr>content := content last_msg @ text\<rparr>))))"

fun apply_deltas_at ::
  "nat \<Rightarrow> jsval list \<Rightarrow> ChatMsg option list \<Rightarrow> js_error + ChatMsg option list" where
  "apply_deltas_at i [] prev = Inr prev"
| "apply_deltas_at i (delta # deltas) prev =
     (case append_delta_at i delta prev of
        Inl e \<Rightarrow> Inl e
      | Inr updated \<Rightarrow> apply_deltas_at i deltas updated)"

definition handleSend_at_index ::
  "(string \<Rightarrow> jsval option) \<Rightarrow> ChatMsg list \<Rightarrow> string \<Rightarrow> string \<Rightarrow> string list
     \<Rightarrow> js_error + ChatMsg option list" where
  "handleSend_at_index JSON_parse messages topicContext input reads =
     (let text = trim input in
      if text = [] then Inr (map Some messages)
      else
        let userMsg = \<lparr>role = User, content = text\<rparr>;
            full = messages @ [\<lparr>role = System, content = topicContext\<rparr>, userMsg];
            history = drop (length full - 20) full;
            assistantIndex = length history
        in apply_deltas_at assistantIndex (ssePost JSON_parse reads)
             (map Some (messages @ [userMsg]) @ [Some \<lparr>role = Assistant, content = []\<rparr>]))"

section \<open>The test page's stream consumer (unnamed/part_001, send)\<close>

datatype 'a flow = Continue 'a | Return 'a

text \<open>The state update after a parsed payload: the last message, if the assistant's.\<close>

definition set_last_assistant :: "string \<Rightarrow> ChatMsg list \<Rightarrow> ChatMsg list" where
  "set_last_assistant assistant cur =
     (if cur \<noteq> [] \<and> role (cur ! (length cur - 1)) = Assistant
      then cur[length cur - 1 := \<lparr>role = Assistant, content = assistant\<rparr>]
      else cur)"

text \<open>
  What the body of the loop over the lines does with a payload; the state is the local
  \<open>assistant\<close> and the messages. Everything from \<open>JSON.parse\<close> to \<open>setMessages\<close> is inside
  the \<open>try\<close>: when the parse, the read of \<open>json.error\<close> or a conversion to text throws,
  the \<open>catch\<close> leaves \<open>assistant\<close> and the messages as they were.
\<close>

definition send_payload ::
  "(string \<Rightarrow> jsval option) \<Rightarrow> string \<Rightarrow> string \<times> ChatMsg list \<Rightarrow> (string \<times> ChatMsg list) flow" where
  "send_payload JSON_parse payload st =
     (case st of (assistant, msgs) \<Rightarrow>
        if payload = ''[DONE]'' then Return st
        else
          (case JSON_parse payload of
             None \<Rightarrow> Continue st
           | Some json \<Rightarrow>
               (case js_get json ''error'' of
                  Inl e \<Rightarrow> Continue st
                | Inr err \<Rightarrow>
                    (case (if truthy err then
                             (case js_String err of
                                Inl e \<Rightarrow> Inl e
                              | Inr text \<Rightarrow> Inr (assistant @ ''\<newline>[error] '' @ text))
                           else
                             (case js_get json ''delta'' of
                                Inl e \<Rightarrow> Inl e
                              | Inr d \<Rightarrow>
                                  if truthy d then
                                    (case js_String d of
                                       Inl e \<Rightarrow> Inl e
                                     | Inr text \<Rightarrow> Inr (assistant @ text))
                                  else Inr assistant)) of
                       Inl e \<Rightarrow> Continue st
                     | Inr assistant' \<Rightarrow>
                         Continue (assistant', set_last_assistant assistant' msgs)))))"

fun send_lines ::
  "(string \<Rightarrow> jsval option) \<Rightarrow> string list \<Rightarrow> string \<times> ChatMsg list \<Rightarrow> (string \<times> ChatMsg list) flow" where
  "send_lines JSON_parse [] st = Continue st"
| "send_lines JSON_parse (line # lines) st =
     (if \<not> startsWith line ''data:'' then send_lines JSON_parse lines st
      else
        (case send_payload JSON_parse (trim (drop 5 line)) st of
           Return st' \<Rightarrow> Return st'
         | Continue st' \<Rightarrow> send_lines JSON_parse lines st'))"

fun send_reads ::
  "(string \<Rightarrow> jsval option) \<Rightarrow> string list \<Rightarrow> string \<times> ChatMsg list \<Rightarrow> (string \<times> ChatMsg list) flow" where
  "send_reads JSON_parse [] st = Continue st"
| "send_reads JSON_parse (chunk # reads) st =
     (case send_lines JSON_parse (split_on CHR 0x0A chunk) st of
        Return st' \<Rightarrow> Return st'
      | Continue st' \<Rightarrow> send_reads JSON_parse reads st')"

text \<open>
  \<open>send\<close> after a successful response: the user's message and an empty assistant message
  are appended, then the stream is consumed; the result is the final messages.
\<close>

definition send :: "(string \<Rightarrow> jsval option) \<Rightarrow> ChatMsg list \<Rightarrow> string \<Rightarrow> string list \<Rightarrow> ChatMsg list" where
  "send JSON_parse messages input reads =
     (if trim input = [] then messages
      else
        (case send_reads JSON_parse reads
                ([], messages @ [\<lparr>role = User, content = input\<rparr>, \<lparr>role = Assistant, content = []\<rparr>]) of
           Return (assistant, msgs) \<Rightarrow> msgs
         | Continue (assistant, msgs) \<Rightarrow> msgs))"


section \<open>The accumulator over a sequence of payloads\<close>

text \<open>
  The specification's accumulator consumes payloads one after the other until one ends
  the turn. These two functions say that for the two consumers: they run the body that
  follows the extraction of the payload (\<open>apply_payload\<close>, \<open>send_payload\<close>) over a list of
  payloads. They are used to state which payloads the loops over frames and lines forward.
\<close>

fun run_payloads :: "(string \<Rightarrow> jsval option) \<Rightarrow> string list \<Rightarrow> jsval list \<times> bool" where
  "run_payloads JSON_parse [] = ([], False)"
| "run_payloads JSON_parse (payload # payloads) =
     (case apply_payload JSON_parse payload of
        Done \<Rightarrow> ([], True)
      | Yield d \<Rightarrow> (case run_payloads JSON_parse payloads of (ds, fin) \<Rightarrow> (d # ds, fin))
      | Ignore \<Rightarrow> run_payloads JSON_parse payloads)"

fun send_payloads ::
  "(string \<Rightarrow> jsval option) \<Rightarrow> string list \<Rightarrow> string \<times> ChatMsg list \<Rightarrow> (string \<times> ChatMsg list) flow" where
  "send_payloads JSON_parse [] st = Continue st"
| "send_payloads JSON_parse (payload # payloads) st =
     (case send_payload JSON_parse payload st of
        Return st' \<Rightarrow> Return st'
      | Continue st' \<Rightarrow> send_payloads JSON_parse payloads st')"

section \<open>The check-string as the specification words it\<close>

text \<open>
  The specification's canonical check-string, written from its words and not from the
  code: every field except \<open>hash\<close>, field names sorted, one \<open>key=value\<close> line per field
  name (the last occurrence of a name gives its value), lines joined by single newlines.
\<close>

definition spec_check_string :: "(string \<times> string) list \<Rightarrow> string" where
  "spec_check_string pairs =
     join ''\<newline>''
       (map (\<lambda>k. k @ ''='' @ (case map_of (rev pairs) k of None \<Rightarrow> [] | Some v \<Rightarrow> v))
            (sort (remdups (filter (\<lambda>k. k \<noteq> ''hash'') (map fst pairs)))))"

text \<open>
  The specification's \<open>verify\<close>, from its words: reject when \<open>raw\<close> or \<open>secret\<close> is empty
  or there is no \<open>hash\<close> field; otherwise compare the \<open>hash\<close> value (the last one) with the
  lowercase hexadecimal tag of the canonical check-string under the derived key.
\<close>

definition spec_verify :: "hmac_fn \<Rightarrow> string \<Rightarrow> string \<Rightarrow> bool" where
  "spec_verify hmac raw secret =
     (let pairs = URLSearchParams raw in
      if raw = [] \<or> secret = [] then False
      else
        (case map_of (rev pairs) ''hash'' of
           None \<Rightarrow> False
         | Some tag \<Rightarrow>
             tag = toHex (hmac (hmac (encode ''WebAppData'') (encode secret))
                               (encode (spec_check_string pairs)))))"

text \<open>The entries that become own properties of the field object.\<close>

definition own_entries :: "(string \<times> string) list \<Rightarrow> (string \<times> string) list" where
  "own_entries es = filter (\<lambda>p. fst p \<noteq> ''__proto__'') es"

section \<open>Properties of the launch-data verifier\<close>

lemmas url_defs = URLSearchParams_def parse_pair_def form_decode_def

lemmas json_defs = JSON_parse_ref_def idle_char_def is_json_ws_def is_digit_def is_lower_def
  escape_char_def valid_int_def

lemma map_of_obj_update: "map_of (obj_update k v d) = (map_of d)(k \<mapsto> v)"
  by (induction d) (auto simp: fun_eq_iff)

lemma keys_obj_update: "fst ` set (obj_update k v d) = insert k (fst ` set d)"
  by (induction d) auto

lemma distinct_obj_update: "distinct (map fst d) \<Longrightarrow> distinct (map fst (obj_update k v d))"
  by (induction d) (auto simp: keys_obj_update)

lemma map_of_collect:
  "map_of (collect_fields d es) = map_of d ++ map_of (rev (own_entries es))"
proof (induction es arbitrary: d)
  case Nil
  show ?case by (simp add: own_entries_def)
next
  case (Cons p es)
  obtain k v where p: "p = (k, v)" by (cases p)
  show ?case
    by (simp add: p Cons.IH obj_set_def own_entries_def map_of_obj_update map_add_upd_left
        fun_eq_iff map_add_def split: option.splits)
qed

lemma keys_collect:
  "fst ` set (collect_fields d es) = fst ` set d \<union> fst ` set (own_entries es)"
proof (induction es arbitrary: d)
  case Nil
  show ?case by (simp add: own_entries_def)
next
  case (Cons p es)
  obtain k v where p: "p = (k, v)" by (cases p)
  show ?case
    by (auto simp: p Cons.IH obj_set_def own_entries_def keys_obj_update)
qed

lemma distinct_collect:
  "distinct (map fst d) \<Longrightarrow> distinct (map fst (collect_fields d es))"
proof (induction es arbitrary: d)
  case Nil
  then show ?case by simp
next
  case (Cons p es)
  obtain k v where p: "p = (k, v)" by (cases p)
  from Cons.prems show ?case
    by (simp add: p Cons.IH obj_set_def distinct_obj_update)
qed

lemma checkArr_loop_eq:
  "checkArr_loop data keys acc =
     acc @ map (\<lambda>key. key @ ''='' @ (case map_of data key of None \<Rightarrow> ''undefined'' | Some v \<Rightarrow> v))
               (filter (\<lambda>key. key \<noteq> ''hash'') keys)"
  by (induction keys arbitrary: acc) simp_all

lemma sorted_keys_collect:
  "sorted_keys (collect_fields [] es) = sort (remdups (map fst (own_entries es)))"
proof -
  have d1: "distinct (map fst (collect_fields [] es))"
    by (rule distinct_collect) simp
  have d2: "distinct (remdups (map fst (own_entries es)))"
    by simp
  have "set (map fst (collect_fields [] es)) = set (remdups (map fst (own_entries es)))"
    using keys_collect [of "[]" es] by simp
  with set_eq_iff_mset_eq_distinct [OF d1 d2]
  have "mset (map fst (collect_fields [] es)) = mset (remdups (map fst (own_entries es)))"
    by blast
  then have "mset (sort (remdups (map fst (own_entries es)))) = mset (map fst (collect_fields [] es))"
    by simp
  then show ?thesis
    unfolding sorted_keys_def by (rule properties_for_sort) simp
qed

text \<open>The check-string the code builds, in closed form.\<close>

lemma checkString_collect:
  "checkString_of (collect_fields [] es) =
     join ''\<newline>''
       (map (\<lambda>key. key @ ''='' @
                (case map_of (rev (own_entries es)) key of None \<Rightarrow> ''undefined'' | Some v \<Rightarrow> v))
            (filter (\<lambda>key. key \<noteq> ''hash'') (sort (remdups (map fst (own_entries es))))))"
  by (simp add: checkString_of_def checkArr_loop_eq sorted_keys_collect map_of_collect)

lemma perm_distinct_keys:
  assumes "mset es1 = mset es2" "distinct (map fst es1)"
  shows "map_of (rev (own_entries es1)) = map_of (rev (own_entries es2))"
    and "sort (remdups (map fst (own_entries es1))) = sort (remdups (map fst (own_entries es2)))"
proof -
  from assms(1) have m: "mset (own_entries es1) = mset (own_entries es2)"
    by (simp add: own_entries_def)
  have "mset (map fst es1) = mset (map fst es2)"
    using assms(1) by (metis mset_map)
  with assms(2) have d2: "distinct (map fst es2)"
    by (metis mset_eq_imp_distinct_iff)
  have d1': "distinct (map fst (rev (own_entries es1)))"
    using assms(2) by (simp add: own_entries_def rev_map [symmetric] distinct_map_filter)
  have d2': "distinct (map fst (rev (own_entries es2)))"
    using d2 by (simp add: own_entries_def rev_map [symmetric] distinct_map_filter)
  from m have "set (rev (own_entries es1)) = set (rev (own_entries es2))"
    by (metis mset_eq_setD set_rev)
  with d1' d2' show "map_of (rev (own_entries es1)) = map_of (rev (own_entries es2))"
    by (simp add: map_of_inject_set)
  from m have "mset (map fst (own_entries es1)) = mset (map fst (own_entries es2))"
    by (metis mset_map)
  then have "mset (remdups (map fst (own_entries es1))) = mset (remdups (map fst (own_entries es2)))"
    by (metis mset_eq_setD set_eq_iff_mset_remdups_eq)
  then have "mset (sort (remdups (map fst (own_entries es2)))) = mset (remdups (map fst (own_entries es1)))"
    by simp
  then show "sort (remdups (map fst (own_entries es1))) = sort (remdups (map fst (own_entries es2)))"
    by (rule properties_for_sort) simp
qed

text \<open>
  On launch data without a field named \<open>__proto__\<close>, and for a keyed hash whose tags are
  not empty, the code computes the specification's \<open>verify\<close>.
\<close>

lemma length_toHex_loop: "length (toHex_loop bytes hex) = length hex + 2 * length bytes"
  by (induction bytes arbitrary: hex) (simp_all add: padStart2_def byte_toString16_def)

lemma toHex_nonempty: "bytes \<noteq> [] \<Longrightarrow> toHex bytes \<noteq> []"
  using length_toHex_loop [of bytes "[]"] by (auto simp: toHex_def)

lemma own_entries_id: "''__proto__'' \<notin> fst ` set es \<Longrightarrow> own_entries es = es"
  by (induction es) (auto simp: own_entries_def)

lemma checkString_is_spec:
  assumes "''__proto__'' \<notin> fst ` set es"
  shows "checkString_of (collect_fields [] es) = spec_check_string es"
proof -
  have keys: "filter (\<lambda>key. key \<noteq> ''hash'') (sort (remdups (map fst es))) =
              sort (remdups (filter (\<lambda>k. k \<noteq> ''hash'') (map fst es)))"
    by (simp add: filter_sort remdups_filter)
  have vals: "map (\<lambda>key. key @ ''='' @ (case map_of (rev es) key of None \<Rightarrow> ''undefined'' | Some v \<Rightarrow> v)) ks =
              map (\<lambda>k. k @ ''='' @ (case map_of (rev es) k of None \<Rightarrow> [] | Some v \<Rightarrow> v)) ks"
    if "set ks \<subseteq> fst ` set es" for ks
  proof (rule map_cong [OF refl])
    fix k assume "k \<in> set ks"
    with that have "k \<in> fst ` set (rev es)" by auto
    then obtain v where "map_of (rev es) k = Some v"
      by (metis map_of_eq_None_iff not_Some_eq)
    then show "k @ ''='' @ (case map_of (rev es) k of None \<Rightarrow> ''undefined'' | Some v \<Rightarrow> v) =
               k @ ''='' @ (case map_of (rev es) k of None \<Rightarrow> [] | Some v \<Rightarrow> v)"
      by simp
  qed
  have "set (sort (remdups (filter (\<lambda>k. k \<noteq> ''hash'') (map fst es)))) \<subseteq> fst ` set es"
    by auto
  from vals [OF this] show ?thesis
    by (simp only: checkString_collect own_entries_id [OF assms] keys spec_check_string_def)
qed

lemma verify_is_spec_without_proto:
  assumes "''__proto__'' \<notin> fst ` set (URLSearchParams raw)"
    and "\<And>k m. hmac k m \<noteq> []"
  shows "verifyTelegramInitData (Some hmac) raw secret = Resolved (spec_verify hmac raw secret)"
proof (cases "raw = [] \<or> secret = []")
  case True
  then show ?thesis by (auto simp: verifyTelegramInitData_def spec_verify_def)
next
  case False
  have m: "map_of (collect_fields [] (URLSearchParams raw)) ''hash'' = map_of (rev (URLSearchParams raw)) ''hash''"
    by (simp add: map_of_collect own_entries_id [OF assms(1)])
  show ?thesis
  proof (cases "map_of (rev (URLSearchParams raw)) ''hash''")
    case None
    with False m show ?thesis by (simp add: verifyTelegramInitData_def spec_verify_def)
  next
    case (Some tag)
    show ?thesis
    proof (cases "tag = []")
      case True
      have "[] \<noteq> toHex (hmac k d)" for k d
        using toHex_nonempty [OF assms(2), of k d] by simp
      with True Some False m show ?thesis
        by (simp add: verifyTelegramInitData_def spec_verify_def)
    next
      case nonempty: False
      with Some False m show ?thesis
        by (auto simp: verifyTelegramInitData_def spec_verify_def Let_def hmacSHA256_def
            checkString_is_spec [OF assms(1)])
    qed
  qed
qed

text \<open>
  C2. The early rejections are as the claim says, and the comparison is the claimed one
  on every input but one kind: a field named \<open>__proto__\<close> never becomes a property of the
  field object, so it is left out of the check-string. At the launch data
  \<open>__proto__=1&hash=ab\<close> the code signs the empty string, where the check-string of the
  claim is \<open>__proto__=1\<close>; the result is \<open>true\<close> exactly when \<open>ab\<close> is the tag of the empty
  string.
\<close>

theorem C2_proto_field_left_out:
  "checkString_of (collect_fields [] (URLSearchParams ''__proto__=1&hash=ab'')) = [] \<and>
   spec_check_string (URLSearchParams ''__proto__=1&hash=ab'') = ''__proto__=1'' \<and>
   verifyTelegramInitData (Some h) ''__proto__=1&hash=ab'' ''S'' =
     Resolved (toHex (h (h (encode ''WebAppData'') (encode ''S'')) (encode [])) = ''ab'')"
  by (simp add: verifyTelegramInitData_def url_defs obj_set_def checkString_of_def sorted_keys_def
      hmacSHA256_def spec_check_string_def)

text \<open>
  C8, as stated, fails: with a repeated field name the last occurrence wins, so swapping
  the two occurrences changes the check-string.
\<close>

theorem C8_duplicate_names_counterexample:
  "mset (URLSearchParams ''a=1&a=2&hash=h'') = mset (URLSearchParams ''a=2&a=1&hash=h'') \<and>
   checkString_of (collect_fields [] (URLSearchParams ''a=1&a=2&hash=h'')) = ''a=2'' \<and>
   checkString_of (collect_fields [] (URLSearchParams ''a=2&a=1&hash=h'')) = ''a=1''"
  by (simp add: url_defs obj_set_def checkString_of_def sorted_keys_def)

text \<open>
  C8, amended: when the field names of the launch data are pairwise distinct, every
  permutation of its pairs gives the same check-string and the same result of
  \<open>verifyTelegramInitData\<close> (the same boolean, or the same failure of the keyed hash).
\<close>

theorem C8_order_independent_when_names_distinct:
  assumes "mset (URLSearchParams raw1) = mset (URLSearchParams raw2)"
    and "distinct (map fst (URLSearchParams raw1))"
  shows "checkString_of (collect_fields [] (URLSearchParams raw1)) =
           checkString_of (collect_fields [] (URLSearchParams raw2))
       \<and> verifyTelegramInitData subtle raw1 botToken = verifyTelegramInitData subtle raw2 botToken"
proof -
  note p = perm_distinct_keys [OF assms]
  have cs: "checkString_of (collect_fields [] (URLSearchParams raw1)) =
           checkString_of (collect_fields [] (URLSearchParams raw2))"
    by (simp add: checkString_collect p)
  have h: "map_of (collect_fields [] (URLSearchParams raw1)) ''hash'' =
        map_of (collect_fields [] (URLSearchParams raw2)) ''hash''"
    by (simp add: map_of_collect p)
  have e: "raw1 = [] \<Longrightarrow> URLSearchParams raw2 = []"
    using assms(1) by (simp add: URLSearchParams_def)
  have e': "raw2 = [] \<Longrightarrow> URLSearchParams raw1 = []"
    using assms(1) by (simp add: URLSearchParams_def)
  have "verifyTelegramInitData subtle raw1 botToken = verifyTelegramInitData subtle raw2 botToken"
  proof (cases "raw1 = [] \<or> raw2 = []")
    case True
    then show ?thesis
      using e e' by (auto simp: verifyTelegramInitData_def URLSearchParams_def)
  next
    case False
    then show ?thesis
      unfolding verifyTelegramInitData_def Let_def cs h by simp
  qed
  with cs show ?thesis by simp
qed

theorem C8_order_independent_witness:
  "mset (URLSearchParams ''a=1&c=3&b=2&hash=h'') = mset (URLSearchParams ''hash=h&b=2&a=1&c=3'') \<and>
   distinct (map fst (URLSearchParams ''a=1&c=3&b=2&hash=h'')) \<and>
   checkString_of (collect_fields [] (URLSearchParams ''a=1&c=3&b=2&hash=h'')) =
     checkString_of (collect_fields [] (URLSearchParams ''hash=h&b=2&a=1&c=3'')) \<and>
   verifyTelegramInitData None ''a=1&c=3&b=2&hash=h'' ''S'' =
     verifyTelegramInitData None ''hash=h&b=2&a=1&c=3'' ''S''"
proof -
  have m: "mset (URLSearchParams ''a=1&c=3&b=2&hash=h'') = mset (URLSearchParams ''hash=h&b=2&a=1&c=3'')"
    by (simp add: url_defs)
  have d: "distinct (map fst (URLSearchParams ''a=1&c=3&b=2&hash=h''))"
    by (simp add: url_defs)
  from C8_order_independent_when_names_distinct [OF m d, of None "''S''"] m d
  show ?thesis by simp
qed

text \<open>The cases in which \<open>extractUserId\<close> answers \<open>null\<close>, and the one with an \<open>id\<close>.\<close>

lemma extractUserId_null:
  "params_get (URLSearchParams raw) ''user'' = None \<Longrightarrow> extractUserId P raw = None"
  "params_get (URLSearchParams raw) ''user'' = Some u \<Longrightarrow> P u = None \<Longrightarrow> extractUserId P raw = None"
  "params_get (URLSearchParams raw) ''user'' = Some u \<Longrightarrow> P u = Some JNull \<Longrightarrow> extractUserId P raw = None"
  by (simp_all add: extractUserId_def)

lemma extractUserId_id:
  "params_get (URLSearchParams raw) ''user'' = Some u \<Longrightarrow> u \<noteq> [] \<Longrightarrow> P u = Some (JObject kvs) \<Longrightarrow>
   map_of (rev kvs) ''id'' = Some v \<Longrightarrow>
   extractUserId P raw = (if ToString_throws v then None else Some (js_text v))"
  by (simp add: extractUserId_def js_String_def)

text \<open>
  C3. A \<open>user\<close> field whose JSON has no \<open>id\<close> does not give \<open>null\<close>: \<open>String(user.id)\<close> is
  \<open>String(undefined)\<close>, the nine-character text \<open>undefined\<close>.
\<close>

theorem C3_missing_id_gives_undefined_text:
  \<open>extractUserId JSON_parse_ref ''user={"first_name":"A"}'' = Some ''undefined''\<close>
  by (simp add: extractUserId_def url_defs params_get_def json_defs js_String_def)

section \<open>Properties of the tip endpoint\<close>

text \<open>
  C1. A POST whose launch data is the text \<open>x\<close> (it has no \<open>hash\<close> field): verification
  resolves to \<open>false\<close>, and the handler still calls \<open>generateTip\<close>, because the truthiness
  it tests is that of the promise.
\<close>

theorem C1_unverified_request_reaches_generateTip:
  "verifyTelegramInitData subtle ''x'' (case tok of None \<Rightarrow> [] | Some t \<Rightarrow> t) = Resolved False \<and>
   fst (handler subtle JSON_parse generateTip tok
          \<lparr>req_method = ''POST'', level = JUndefined, errors = JUndefined, initData = Some ''x''\<rparr>)
     = [(''beginner'', [])]"
  by (simp add: verifyTelegramInitData_def handler_def url_defs obj_set_def truthy_promise_def
      toLowerCase_def js_String_def Let_def split: sum.splits option.splits)

lemma map_String_slice_Inr:
  "map_String_slice xs = Inr texts \<Longrightarrow>
   texts = map (\<lambda>s. take 200 (js_text s)) xs \<and> \<not> list_ex ToString_throws xs"
  by (induction xs arbitrary: texts) (auto simp: js_String_def split: sum.splits if_splits)

lemma handler_calls:
  "fst (handler subtle JSON_parse generateTip tok req) = [] \<or>
   (fst (handler subtle JSON_parse generateTip tok req) =
     [(let n = toLowerCase (js_text (if truthy (level req) then level req else JString ''beginner''))
       in if n \<in> {''beginner'', ''intermediate'', ''advanced''} then n else ''beginner'',
       case errors req of JArray xs \<Rightarrow> map (\<lambda>s. take 200 (js_text s)) (take 20 xs) | _ \<Rightarrow> [])] \<and>
    \<not> ToString_throws (if truthy (level req) then level req else JString ''beginner'') \<and>
    (case errors req of JArray xs \<Rightarrow> \<not> list_ex ToString_throws (take 20 xs) | _ \<Rightarrow> True))"
proof -
  define lvv where "lvv = (if truthy (level req) then level req else JString ''beginner'')"
  define fl where "fl = (\<lambda>t. if toLowerCase t \<in> {''beginner'', ''intermediate'', ''advanced''}
                            then toLowerCase t else ''beginner'')"
  define es where "es = (case errors req of JArray xs \<Rightarrow> map_String_slice (take 20 xs) | _ \<Rightarrow> Inr [])"
  define tail where "tail = (\<lambda>init.
     (case js_String lvv of
        Inl e \<Rightarrow> ([], Response 500 (error_body ''server_error''))
      | Inr t \<Rightarrow>
          (case es of
             Inl e \<Rightarrow> ([], Response 500 (error_body ''server_error''))
           | Inr errs \<Rightarrow>
               (case generateTip (fl t) errs of
                  Inl e \<Rightarrow> ([(fl t, errs)], Response 500 (error_body ''server_error''))
                | Inr advice \<Rightarrow>
                    ([(fl t, errs)],
                     Response 200
                       (JObject [(''ok'', JBool True), (''advice'', JString advice),
                                 (''userId'', JString
                                    (case extractUserId JSON_parse init of
                                       None \<Rightarrow> ''unknown''
                                     | Some u \<Rightarrow> if u = [] then ''unknown'' else u))]))))))"
  have h: "handler subtle JSON_parse generateTip tok req =
     (if req_method req \<noteq> ''POST'' then ([], Response 405 (error_body ''Method Not Allowed''))
      else
        (case initData req of
           None \<Rightarrow> ([], Response 400 (error_body ''initData required''))
         | Some init \<Rightarrow>
             if init = [] then ([], Response 400 (error_body ''initData required''))
             else tail init))"
    unfolding handler_def Let_def truthy_promise_def lvv_def es_def fl_def tail_def
    by (simp only: not_True_eq_False if_False)
  have t: "fst (tail init) = [] \<or>
           (fst (tail init) = [(fl (js_text lvv), case errors req of JArray xs \<Rightarrow> map (\<lambda>s. take 200 (js_text s)) (take 20 xs) | _ \<Rightarrow> [])]
            \<and> \<not> ToString_throws lvv
            \<and> (case errors req of JArray xs \<Rightarrow> \<not> list_ex ToString_throws (take 20 xs) | _ \<Rightarrow> True))" for init
  proof (cases "ToString_throws lvv")
    case True
    then show ?thesis by (simp add: tail_def js_String_def)
  next
    case nt: False
    show ?thesis
    proof (cases es)
      case (Inl e)
      with nt show ?thesis by (simp add: tail_def js_String_def)
    next
      case (Inr errs)
      then have e: "errs = (case errors req of JArray xs \<Rightarrow> map (\<lambda>s. take 200 (js_text s)) (take 20 xs) | _ \<Rightarrow> [])
          \<and> (case errors req of JArray xs \<Rightarrow> \<not> list_ex ToString_throws (take 20 xs) | _ \<Rightarrow> True)"
        using map_String_slice_Inr unfolding es_def by (cases "errors req") auto
      have "fst (tail init) = [(fl (js_text lvv), errs)]"
        using nt Inr by (simp add: tail_def js_String_def split: sum.splits)
      with e nt show ?thesis by simp
    qed
  qed
  have "fst (handler subtle JSON_parse generateTip tok req) = [] \<or>
        (\<exists>init. fst (handler subtle JSON_parse generateTip tok req) = fst (tail init))"
    unfolding h by (auto split: option.splits)
  with t have "fst (handler subtle JSON_parse generateTip tok req) = [] \<or>
     (fst (handler subtle JSON_parse generateTip tok req) =
        [(fl (js_text lvv), case errors req of JArray xs \<Rightarrow> map (\<lambda>s. take 200 (js_text s)) (take 20 xs) | _ \<Rightarrow> [])]
      \<and> \<not> ToString_throws lvv
      \<and> (case errors req of JArray xs \<Rightarrow> \<not> list_ex ToString_throws (take 20 xs) | _ \<Rightarrow> True))"
    by metis
  then show ?thesis unfolding fl_def lvv_def Let_def .
qed

text \<open>No request is answered with 401: the branch is never taken.\<close>

lemma handler_gate_never_closes:
  "snd (handler subtle JSON_parse generateTip tok req) \<noteq> Response 401 body"
  by (simp add: handler_def truthy_promise_def Let_def split: sum.splits option.splits jsval.splits)

lemma errs_bounds:
  "length (case v of JArray xs \<Rightarrow> map (\<lambda>s. take 200 (js_text s)) (take 20 xs) | _ \<Rightarrow> []) \<le> 20 \<and>
   list_all (\<lambda>e. length e \<le> 200)
     (case v of JArray xs \<Rightarrow> map (\<lambda>s. take 200 (js_text s)) (take 20 xs) | _ \<Rightarrow> [])"
  by (cases v) (simp_all add: list_all_iff)

lemma level_allowed:
  "(let n = toLowerCase s
    in if n \<in> {''beginner'', ''intermediate'', ''advanced''} then n else ''beginner'')
     \<in> {''beginner'', ''intermediate'', ''advanced''}"
proof (cases "toLowerCase s \<in> {''beginner'', ''intermediate'', ''advanced''}")
  case True
  then show ?thesis unfolding Let_def by (simp only: if_True)
next
  case False
  then show ?thesis unfolding Let_def by (simp only: if_False insertI1)
qed

text \<open>
  C10. Whatever the handler passes to \<open>generateTip\<close> is sanitized: the level is the
  lower-cased text of the request's level (of \<open>beginner\<close> when the request has none) if
  that is one of the three allowed levels, and \<open>beginner\<close> otherwise; the errors are empty
  when the request's \<open>errors\<close> is not an array, and otherwise its first 20 entries, each
  turned into text and cut to 200 characters. (A request whose level or one of whose
  first 20 errors cannot be turned into text is answered with 500 before any call.)
\<close>

theorem C10_tip_arguments_sanitized:
  assumes "(lvl, errs) \<in> set (fst (handler subtle JSON_parse generateTip tok req))"
  shows "lvl = (let n = toLowerCase
                          (js_text (if truthy (level req) then level req else JString ''beginner''))
                in if n \<in> {''beginner'', ''intermediate'', ''advanced''} then n else ''beginner'')
       \<and> lvl \<in> {''beginner'', ''intermediate'', ''advanced''}
       \<and> errs = (case errors req of
                    JArray xs \<Rightarrow> map (\<lambda>s. take 200 (js_text s)) (take 20 xs)
                  | _ \<Rightarrow> [])
       \<and> length errs \<le> 20 \<and> list_all (\<lambda>e. length e \<le> 200) errs
       \<and> js_String (if truthy (level req) then level req else JString ''beginner'')
           = Inr (js_text (if truthy (level req) then level req else JString ''beginner''))
       \<and> (case errors req of
             JArray xs \<Rightarrow> list_all (\<lambda>s. js_String s = Inr (js_text s)) (take 20 xs)
           | _ \<Rightarrow> True)"
proof -
  define lvv where "lvv = (if truthy (level req) then level req else JString ''beginner'')"
  define lv where "lv = (let n = toLowerCase (js_text lvv)
                in if n \<in> {''beginner'', ''intermediate'', ''advanced''} then n else ''beginner'')"
  define es where "es = (case errors req of
                    JArray xs \<Rightarrow> map (\<lambda>s. take 200 (js_text s)) (take 20 xs)
                  | _ \<Rightarrow> [])"
  define ok where "ok = (case errors req of JArray xs \<Rightarrow> \<not> list_ex ToString_throws (take 20 xs) | _ \<Rightarrow> True)"
  have "fst (handler subtle JSON_parse generateTip tok req) = [] \<or>
        (fst (handler subtle JSON_parse generateTip tok req) = [(lv, es)] \<and> \<not> ToString_throws lvv \<and> ok)"
    unfolding lv_def es_def lvv_def ok_def by (rule handler_calls)
  with assms have l: "lvl = lv" and e: "errs = es" and nt: "\<not> ToString_throws lvv" and ok: ok
    by auto
  have a: "lv \<in> {''beginner'', ''intermediate'', ''advanced''}"
    unfolding lv_def by (rule level_allowed)
  have b: "length es \<le> 20 \<and> list_all (\<lambda>e. length e \<le> 200) es"
    unfolding es_def by (rule errs_bounds)
  have c: "js_String lvv = Inr (js_text lvv)"
    using nt by (simp add: js_String_def)
  have d: "(case errors req of
             JArray xs \<Rightarrow> list_all (\<lambda>s. js_String s = Inr (js_text s)) (take 20 xs)
           | _ \<Rightarrow> True)"
    using ok unfolding ok_def
    by (cases "errors req") (auto simp: js_String_def list_all_iff list_ex_iff)
  from l e a b c d have "lvl = lv \<and> lvl \<in> {''beginner'', ''intermediate'', ''advanced''} \<and> errs = es
      \<and> length errs \<le> 20 \<and> list_all (\<lambda>e. length e \<le> 200) errs
      \<and> js_String lvv = Inr (js_text lvv)
      \<and> (case errors req of
             JArray xs \<Rightarrow> list_all (\<lambda>s. js_String s = Inr (js_text s)) (take 20 xs)
           | _ \<Rightarrow> True)"
    by blast
  then show ?thesis unfolding lv_def es_def lvv_def .
qed

lemma handler_sample_call:
  "fst (handler None JSON_parse_ref (\<lambda>l e. Inr ''tip'') (Some ''T'')
          \<lparr>req_method = ''POST'', level = JString ''ADVANCED'',
           errors = JArray [JNumber ''5'', JNull, JString (replicate 300 CHR ''x'')],
           initData = Some ''x''\<rparr>) = [(''advanced'', [''5'', ''null'', replicate 200 CHR ''x''])]"
  by (simp add: handler_def truthy_promise_def toLowerCase_def js_String_def Let_def)

theorem C10_tip_arguments_witness:
  "(''advanced'', [''5'', ''null'', replicate 200 CHR ''x''])
     \<in> set (fst (handler None JSON_parse_ref (\<lambda>l e. Inr ''tip'') (Some ''T'')
          \<lparr>req_method = ''POST'', level = JString ''ADVANCED'',
           errors = JArray [JNumber ''5'', JNull, JString (replicate 300 CHR ''x'')],
           initData = Some ''x''\<rparr>))
   \<and> length [''5'', ''null'', replicate 200 CHR ''x''] \<le> 20
   \<and> list_all (\<lambda>e. length e \<le> 200) [''5'', ''null'', replicate 200 CHR ''x'']"
proof -
  have m: "(''advanced'', [''5'', ''null'', replicate 200 CHR ''x''])
     \<in> set (fst (handler None JSON_parse_ref (\<lambda>l e. Inr ''tip'') (Some ''T'')
          \<lparr>req_method = ''POST'', level = JString ''ADVANCED'',
           errors = JArray [JNumber ''5'', JNull, JString (replicate 300 CHR ''x'')],
           initData = Some ''x''\<rparr>))"
    by (simp only: handler_sample_call list.set insertI1)
  from C10_tip_arguments_sanitized [OF m] m show ?thesis by blast
qed

section \<open>Properties of the stream consumers\<close>

subsection \<open>The frame decoder\<close>

text \<open>
  C5. The decoder cuts the frames with \<open>indexOf\<close> from the left and cuts the buffer with
  \<open>lastIndexOf\<close> from the right; on three newlines in a row the two disagree. The bytes
  \<open>a\n\n\nb\n\n\<close> decode to the frames \<open>a\<close> and \<open>\nb\<close> when they arrive in one chunk, and to
  \<open>a\<close> and \<open>b\<close> when the chunk boundary falls before the last two newlines. On a stream of
  two delta frames the consumer then yields both deltas for the split input and only the
  first for the unsplit one.
\<close>

theorem C5_split_changes_frames:
  \<open>decoded_frames [] [''a\<newline>\<newline>\<newline>b'', ''\<newline>\<newline>''] = [''a'', ''b''] \<and>
   decoded_frames [] [''a\<newline>\<newline>\<newline>b\<newline>\<newline>''] = [''a'', ''\<newline>b''] \<and>
   ssePost JSON_parse_ref [''data: {"delta":"A"}\<newline>\<newline>\<newline>data: {"delta":"B"}'', ''\<newline>\<newline>'']
     = [JString ''A'', JString ''B''] \<and>
   ssePost JSON_parse_ref [''data: {"delta":"A"}\<newline>\<newline>\<newline>data: {"delta":"B"}\<newline>\<newline>'']
     = [JString ''A'']\<close>
  by code_simp

subsection \<open>Which payloads are forwarded\<close>

lemma process_lines_forwarded:
  "process_lines P frames =
     run_payloads P (map (drop 6) (filter (\<lambda>f. startsWith f ''data: '') frames))"
  by (induction frames) (simp_all split: frame_action.splits)

lemma send_lines_forwarded:
  "send_lines P lines st =
     send_payloads P (map (\<lambda>l. trim (drop 5 l)) (filter (\<lambda>l. startsWith l ''data:'') lines)) st"
  by (induction lines arbitrary: st) (simp_all split: flow.splits)


text \<open>
  C6, as stated, fails in the chat page's consumer: a frame of two marked lines is one
  payload (which is no JSON, so nothing is yielded), while the same two lines as two
  frames yield both deltas; and a frame that begins with the marker without the space
  is ignored.
\<close>

theorem C6_multi_line_frame_counterexample:
  \<open>process_lines JSON_parse_ref [''data: {"delta":"a"}\<newline>data: {"delta":"b"}''] = ([], False) \<and>
   process_lines JSON_parse_ref [''data: {"delta":"a"}'', ''data: {"delta":"b"}'']
     = ([JString ''a'', JString ''b''], False) \<and>
   process_lines JSON_parse_ref [''data:{"delta":"a"}''] = ([], False)\<close>
  by code_simp

text \<open>
  C6, amended. The chat page's consumer forwards a decoded frame as a whole, and only if
  it begins with the six characters \<open>data: \<close> (the marker and one space), which are
  stripped; every other frame is ignored, and the lines of a frame are not looked at one
  by one. The test page's consumer forwards every line of a chunk that begins with
  \<open>data:\<close>, with the marker stripped and the rest trimmed of the white space around it;
  every other line is ignored, and all lines are treated alike.
\<close>

theorem C6_forwarded_payloads:
  "process_lines JSON_parse frames =
     run_payloads JSON_parse (map (drop 6) (filter (\<lambda>f. startsWith f ''data: '') frames)) \<and>
   send_lines JSON_parse lines st =
     send_payloads JSON_parse
       (map (\<lambda>l. trim (drop 5 l)) (filter (\<lambda>l. startsWith l ''data:'') lines)) st"
  by (simp only: process_lines_forwarded send_lines_forwarded)

subsection \<open>The state updates touch the last message only\<close>

lemma append_delta_last:
  "append_delta d (pre @ [\<lparr>role = Assistant, content = c\<rparr>]) =
     (case js_String d of
        Inl e \<Rightarrow> Inl e
      | Inr text \<Rightarrow> Inr (pre @ [\<lparr>role = Assistant, content = c @ text\<rparr>]))"
  by (simp add: append_delta_def Let_def split: sum.splits)

lemma set_last_assistant_last:
  "set_last_assistant a (pre @ [\<lparr>role = Assistant, content = c\<rparr>]) =
     pre @ [\<lparr>role = Assistant, content = a\<rparr>]"
  by (simp add: set_last_assistant_def)

lemma append_delta_frame:
  assumes "append_delta d prev = Inr updated"
  shows "butlast updated = butlast prev \<and> length updated = length prev \<and>
         map role updated = map role prev"
proof (cases prev rule: rev_cases)
  case Nil
  with assms show ?thesis by (simp add: append_delta_def)
next
  case (snoc pre m)
  with assms show ?thesis
    by (cases m; cases "role m")
       (auto simp: append_delta_def Let_def split: sum.splits)
qed

lemma set_last_assistant_frame:
  "butlast (set_last_assistant a cur) = butlast cur \<and>
   length (set_last_assistant a cur) = length cur \<and>
   map role (set_last_assistant a cur) = map role cur"
proof (cases cur rule: rev_cases)
  case Nil
  then show ?thesis by (simp add: set_last_assistant_def)
next
  case (snoc pre m)
  then show ?thesis
    by (cases m; cases "role m") (simp_all add: set_last_assistant_def)
qed


subsection \<open>Deltas and the sentinel\<close>

lemma stream_frames:
  \<open>read_step [] ''data: {"delta":"Hel"}\<newline>\<newline>data: {"delta":"lo"}\<newline>\<newline>data: [DONE]\<newline>\<newline>'' =
     ([''data: {"delta":"Hel"}'', ''data: {"delta":"lo"}'', ''data: [DONE]''], [])\<close>
  by code_simp

lemma stream_lines:
  \<open>split_on CHR 0x0A ''data: {"delta":"Hel"}\<newline>\<newline>data: {"delta":"lo"}\<newline>\<newline>data: [DONE]\<newline>\<newline>'' =
     [''data: {"delta":"Hel"}'', [], ''data: {"delta":"lo"}'', [], ''data: [DONE]'', [], []]\<close>
  by code_simp

lemma trims:
  \<open>trim '' {"delta":"Hel"}'' = ''{"delta":"Hel"}''\<close>
  \<open>trim '' {"delta":"lo"}'' = ''{"delta":"lo"}''\<close>
  \<open>trim '' [DONE]'' = ''[DONE]''\<close>
  by code_simp+


text \<open>
  C7. For a stream of the frames \<open>data: {"delta":"Hel"}\<close>, \<open>data: {"delta":"lo"}\<close> and
  \<open>data: [DONE]\<close>, whatever is read after them, both consumers turn an empty trailing
  assistant message into one with the content \<open>Hello\<close> and leave the messages before it
  alone; the sentinel ends the consumption and changes nothing.
\<close>

theorem C7_hello_stream:
  assumes \<open>JSON_parse ''{"delta":"Hel"}'' = Some (JObject [(''delta'', JString ''Hel'')])\<close>
    and \<open>JSON_parse ''{"delta":"lo"}'' = Some (JObject [(''delta'', JString ''lo'')])\<close>
  shows \<open>apply_deltas
           (ssePost JSON_parse
              (''data: {"delta":"Hel"}\<newline>\<newline>data: {"delta":"lo"}\<newline>\<newline>data: [DONE]\<newline>\<newline>'' # later))
           (pre @ [\<lparr>role = Assistant, content = []\<rparr>])
         = Inr (pre @ [\<lparr>role = Assistant, content = ''Hello''\<rparr>])
       \<and> apply_payload JSON_parse ''[DONE]'' = Done
       \<and> send_reads JSON_parse
           (''data: {"delta":"Hel"}\<newline>\<newline>data: {"delta":"lo"}\<newline>\<newline>data: [DONE]\<newline>\<newline>'' # later)
           ([], pre @ [\<lparr>role = Assistant, content = []\<rparr>])
         = Return (''Hello'', pre @ [\<lparr>role = Assistant, content = ''Hello''\<rparr>])
       \<and> send_payload JSON_parse ''[DONE]'' st = Return st\<close>
proof -
  have y1: \<open>apply_payload JSON_parse ''{"delta":"Hel"}'' = Yield (JString ''Hel'')\<close>
    using assms(1) by (simp add: apply_payload_def)
  have y2: \<open>apply_payload JSON_parse ''{"delta":"lo"}'' = Yield (JString ''lo'')\<close>
    using assms(2) by (simp add: apply_payload_def)
  have d: "apply_payload JSON_parse ''[DONE]'' = Done"
    by (simp add: apply_payload_def)
  have \<open>ssePost JSON_parse
          (''data: {"delta":"Hel"}\<newline>\<newline>data: {"delta":"lo"}\<newline>\<newline>data: [DONE]\<newline>\<newline>'' # later)
        = [JString ''Hel'', JString ''lo'']\<close>
    by (simp add: ssePost_def stream_frames startsWith_def y1 y2 d)
  then have a: \<open>apply_deltas
           (ssePost JSON_parse
              (''data: {"delta":"Hel"}\<newline>\<newline>data: {"delta":"lo"}\<newline>\<newline>data: [DONE]\<newline>\<newline>'' # later))
           (pre @ [\<lparr>role = Assistant, content = []\<rparr>])
         = Inr (pre @ [\<lparr>role = Assistant, content = ''Hello''\<rparr>])\<close>
    by (simp add: append_delta_last js_String_def)
  have s1: \<open>send_payload JSON_parse ''{"delta":"Hel"}'' ([], pre @ [\<lparr>role = Assistant, content = []\<rparr>])
      = Continue (''Hel'', pre @ [\<lparr>role = Assistant, content = ''Hel''\<rparr>])\<close>
    using assms(1) by (simp add: send_payload_def set_last_assistant_last js_String_def)
  have s2: \<open>send_payload JSON_parse ''{"delta":"lo"}'' (''Hel'', pre @ [\<lparr>role = Assistant, content = ''Hel''\<rparr>])
      = Continue (''Hello'', pre @ [\<lparr>role = Assistant, content = ''Hello''\<rparr>])\<close>
    using assms(2) by (simp add: send_payload_def set_last_assistant_last js_String_def)
  have s3: "send_payload JSON_parse ''[DONE]'' st' = Return st'" for st'
    by (cases st') (simp add: send_payload_def)
  have b: \<open>send_reads JSON_parse
           (''data: {"delta":"Hel"}\<newline>\<newline>data: {"delta":"lo"}\<newline>\<newline>data: [DONE]\<newline>\<newline>'' # later)
           ([], pre @ [\<lparr>role = Assistant, content = []\<rparr>])
         = Return (''Hello'', pre @ [\<lparr>role = Assistant, content = ''Hello''\<rparr>])\<close>
    by (simp add: stream_lines startsWith_def trims s1 s2 s3)
  from a d b s3 show ?thesis by simp
qed

theorem C7_hello_stream_witness:
  \<open>JSON_parse_ref ''{"delta":"Hel"}'' = Some (JObject [(''delta'', JString ''Hel'')]) \<and>
   JSON_parse_ref ''{"delta":"lo"}'' = Some (JObject [(''delta'', JString ''lo'')]) \<and>
   apply_deltas
     (ssePost JSON_parse_ref
        (''data: {"delta":"Hel"}\<newline>\<newline>data: {"delta":"lo"}\<newline>\<newline>data: [DONE]\<newline>\<newline>'' # [''data: {"delta":"!"}\<newline>\<newline>'']))
     ([\<lparr>role = User, content = ''hi''\<rparr>] @ [\<lparr>role = Assistant, content = []\<rparr>])
    = Inr ([\<lparr>role = User, content = ''hi''\<rparr>] @ [\<lparr>role = Assistant, content = ''Hello''\<rparr>]) \<and>
   send_reads JSON_parse_ref
     (''data: {"delta":"Hel"}\<newline>\<newline>data: {"delta":"lo"}\<newline>\<newline>data: [DONE]\<newline>\<newline>'' # [''data: {"delta":"!"}\<newline>\<newline>''])
     ([], [\<lparr>role = User, content = ''hi''\<rparr>] @ [\<lparr>role = Assistant, content = []\<rparr>])
    = Return (''Hello'', [\<lparr>role = User, content = ''hi''\<rparr>] @ [\<lparr>role = Assistant, content = ''Hello''\<rparr>])\<close>
proof -
  have p1: \<open>JSON_parse_ref ''{"delta":"Hel"}'' = Some (JObject [(''delta'', JString ''Hel'')])\<close>
    by code_simp
  have p2: \<open>JSON_parse_ref ''{"delta":"lo"}'' = Some (JObject [(''delta'', JString ''lo'')])\<close>
    by code_simp
  from C7_hello_stream [OF p1 p2, of \<open>[''data: {"delta":"!"}\<newline>\<newline>'']\<close> "[\<lparr>role = User, content = ''hi''\<rparr>]"] p1 p2
  show ?thesis by blast
qed

subsection \<open>Error payloads\<close>









subsection \<open>The update addressed by index\<close>

text \<open>
  C9. In the copy of the page that addresses the assistant message by
  \<open>assistantIndex = history.length\<close> the index is not that of the message the turn
  created. With 20 earlier messages the index is 20, the slot of the user's message just
  sent: the delta is appended to it, and the turn's assistant message stays empty. In
  the first turn (two earlier messages) the index is 4, one past the end: the delta
  becomes a fifth message.
\<close>

theorem C9_indexed_update_hits_other_message:
  \<open>handleSend_at_index JSON_parse_ref (replicate 20 \<lparr>role = User, content = ''q''\<rparr>) ''t'' ''hi''
      [''data: {"delta":"Hello"}\<newline>\<newline>'']
   = Inr (map Some (replicate 20 \<lparr>role = User, content = ''q''\<rparr>)
       @ [Some \<lparr>role = User, content = ''hiHello''\<rparr>, Some \<lparr>role = Assistant, content = []\<rparr>]) \<and>
   handleSend_at_index JSON_parse_ref
      [\<lparr>role = System, content = ''s''\<rparr>, \<lparr>role = Assistant, content = ''g''\<rparr>] ''t'' ''hi''
      [''data: {"delta":"Hello"}\<newline>\<newline>'']
   = Inr [Some \<lparr>role = System, content = ''s''\<rparr>, Some \<lparr>role = Assistant, content = ''g''\<rparr>,
      Some \<lparr>role = User, content = ''hi''\<rparr>, Some \<lparr>role = Assistant, content = []\<rparr>,
      Some \<lparr>role = Assistant, content = ''Hello''\<rparr>]\<close>
  by code_simp

end
